theory Spec2Isabelle
  imports Complex_Main "HOL-Library.Product_Lexorder" "HOL-Library.Multiset"
begin

section \<open>Numbers and errors\<close>

text \<open>
  The program computes on numpy float64 arrays. Rounding and overflow are not modelled:
  a finite float is an ideal real number. What is modelled of IEEE arithmetic is the
  difference between a finite value and a non-finite one (\<open>inf\<close>, \<open>-inf\<close> or \<open>nan\<close>),
  in the two stages where the source can meet one: the triangle areas (a non-finite vertex
  coordinate) and the normalisation of the areas (a division by a zero total).
  Subtraction, addition, multiplication and the square root of a non-finite operand are
  non-finite (\<open>inf - inf\<close>, \<open>inf * 0\<close> and \<open>sqrt (-inf)\<close> are \<open>nan\<close>), and so is a
  division by zero (\<open>0 / 0 = nan\<close>, \<open>x / 0 = \<plusminus>inf\<close>; numpy warns and goes on).
\<close>

datatype npfloat = Finite real | NonFinite

fun fl_add :: "npfloat \<Rightarrow> npfloat \<Rightarrow> npfloat" where
  "fl_add (Finite a) (Finite b) = Finite (a + b)"
| "fl_add _ _ = NonFinite"

fun fl_sub :: "npfloat \<Rightarrow> npfloat \<Rightarrow> npfloat" where
  "fl_sub (Finite a) (Finite b) = Finite (a - b)"
| "fl_sub _ _ = NonFinite"

fun fl_mul :: "npfloat \<Rightarrow> npfloat \<Rightarrow> npfloat" where
  "fl_mul (Finite a) (Finite b) = Finite (a * b)"
| "fl_mul _ _ = NonFinite"

fun fl_sqrt :: "npfloat \<Rightarrow> npfloat" where
  "fl_sqrt (Finite a) = (if a < 0 then NonFinite else Finite (sqrt a))"
| "fl_sqrt NonFinite = NonFinite"

text \<open>
  \<open>x / y\<close> on float64. A non-finite numerator gives a non-finite quotient. A finite
  numerator over a non-finite divisor is \<open>0\<close> for \<open>\<plusminus>inf\<close> and \<open>nan\<close> for \<open>nan\<close>; the
  model keeps \<open>NonFinite\<close> there, the only place where it is coarser than IEEE.
\<close>

fun fl_div :: "npfloat \<Rightarrow> npfloat \<Rightarrow> npfloat" where
  "fl_div (Finite a) (Finite b) = (if b = 0 then NonFinite else Finite (a / b))"
| "fl_div _ _ = NonFinite"

text \<open>\<open>numpy.sum\<close> of a one-dimensional array; the sum of the empty array is \<open>0.0\<close>.\<close>

definition fl_sum :: "npfloat list \<Rightarrow> npfloat" where
  "fl_sum xs = foldl fl_add (Finite 0) xs"

text \<open>
  The exceptions of the Python run-time and of numpy that the modelled statements can
  raise. The source defines no exception class and has no \<open>raise\<close> statement of
  its own.
\<close>

datatype error = ValueError | IndexError | KeyError

section \<open>Triangle areas: \<open>mesh_area\<close>\<close>

text \<open>A vector of three floats, a triangle of three vertices; \<open>point\<close> is a vector of
  three finite coordinates.\<close>

type_synonym point = "real \<times> real \<times> real"
type_synonym vec3 = "npfloat \<times> npfloat \<times> npfloat"
type_synonym triangle = "vec3 \<times> vec3 \<times> vec3"

fun vsub :: "vec3 \<Rightarrow> vec3 \<Rightarrow> vec3" where
  "vsub (ax, ay, az) (bx, by, bz) = (fl_sub ax bx, fl_sub ay by, fl_sub az bz)"

fun vadd :: "vec3 \<Rightarrow> vec3 \<Rightarrow> vec3" where
  "vadd (ax, ay, az) (bx, by, bz) = (fl_add ax bx, fl_add ay by, fl_add az bz)"

text \<open>\<open>numpy.cross\<close> of two 3-vectors.\<close>

fun cross :: "vec3 \<Rightarrow> vec3 \<Rightarrow> vec3" where
  "cross (ax, ay, az) (bx, by, bz) =
     (fl_sub (fl_mul ay bz) (fl_mul az by),
      fl_sub (fl_mul az bx) (fl_mul ax bz),
      fl_sub (fl_mul ax by) (fl_mul ay bx))"

text \<open>\<open>numpy.sqrt(numpy.sum(N ** 2, axis = 1))\<close> on one row.\<close>

fun row_norm :: "vec3 \<Rightarrow> npfloat" where
  "row_norm (x, y, z) = fl_sqrt (fl_add (fl_add (fl_mul x x) (fl_mul y y)) (fl_mul z z))"

definition mesh_area :: "triangle list \<Rightarrow> npfloat list" where
  "mesh_area triangle_list =
     (let N = map (\<lambda>(v0, v1, v2). cross (vsub v1 v0) (vsub v2 v0)) triangle_list;
          N_norm = map row_norm N
      in map (\<lambda>a. fl_mul a (Finite (1 / 2))) N_norm)"

text \<open>
  Finite vectors and triangles as float arrays, and the vocabulary of the statements about
  them: vector arithmetic on reals, the cross product and the Euclidean norm as the
  textbooks define them, the area \<open>\<bar>(v1 - v0) \<times> (v2 - v0)\<bar> / 2\<close>, and collinearity
  of three vertices (the two edges from \<open>v0\<close> are linearly dependent).
\<close>

type_synonym rtriangle = "point \<times> point \<times> point"

fun fin :: "point \<Rightarrow> vec3" where
  "fin (x, y, z) = (Finite x, Finite y, Finite z)"

fun fin_triangle :: "rtriangle \<Rightarrow> triangle" where
  "fin_triangle (v0, v1, v2) = (fin v0, fin v1, fin v2)"

fun is_finite :: "npfloat \<Rightarrow> bool" where
  "is_finite (Finite a) = True"
| "is_finite NonFinite = False"

fun finite_vec :: "vec3 \<Rightarrow> bool" where
  "finite_vec (x, y, z) = (is_finite x \<and> is_finite y \<and> is_finite z)"

fun finite_triangle :: "triangle \<Rightarrow> bool" where
  "finite_triangle (v0, v1, v2) = (finite_vec v0 \<and> finite_vec v1 \<and> finite_vec v2)"










section \<open>Uniform sampling: \<open>triangle_point_picking\<close> and \<open>uniform_sample_mesh\<close>\<close>

text \<open>
  The random source is a parameter. \<open>random i\<close> is row \<open>i\<close> of the array that
  \<open>numpy.random.random((n, 2))\<close> returns (two floats of the half-open interval from 0
  to 1), and \<open>draw k\<close> is the \<open>k\<close>-th index that \<open>numpy.random.choice\<close> returns.
\<close>

definition reflection :: "(real \<times> real) \<times> (real \<times> real)" where
  "reflection = ((0, - 1), (- 1, 0))"

text \<open>\<open>numpy.dot\<close> of one row with a 2 by 2 matrix.\<close>

fun dot_row :: "real \<times> real \<Rightarrow> (real \<times> real) \<times> (real \<times> real) \<Rightarrow> real \<times> real" where
  "dot_row (u, v) ((m00, m01), (m10, m11)) = (u * m00 + v * m10, u * m01 + v * m11)"

text \<open>Lines 28 and 29 on one row: \<open>t = sum > 1\<close>, \<open>X[t] = dot(X[t], reflection) + 1\<close>.\<close>

definition fold_row :: "real \<times> real \<Rightarrow> real \<times> real" where
  "fold_row x =
     (let t = fst x + snd x > 1
      in if t then (case dot_row x reflection of (a, b) \<Rightarrow> (a + 1, b + 1)) else x)"

fun scale :: "vec3 \<Rightarrow> real \<Rightarrow> vec3" where
  "scale (x, y, z) c = (fl_mul x (Finite c), fl_mul y (Finite c), fl_mul z (Finite c))"

text \<open>
  \<open>einsum('ijk,ij->ik', triangle_list[:,1:] - triangle_list[:,0,None], X)\<close> for one \<open>i\<close>:
  the sum over \<open>j\<close> of edge \<open>j\<close> times \<open>X[i, j]\<close>.
\<close>

fun einsum_row :: "triangle \<Rightarrow> real \<times> real \<Rightarrow> vec3" where
  "einsum_row (v0, v1, v2) (u, v) = vadd (scale (vsub v1 v0) u) (scale (vsub v2 v0) v)"

definition triangle_point_picking :: "triangle list \<Rightarrow> (nat \<Rightarrow> real \<times> real) \<Rightarrow> vec3 list" where
  "triangle_point_picking triangle_list random =
     (let X = map random [0..<length triangle_list];
          X = map fold_row X;
          ret = map2 einsum_row triangle_list X
      in map2 vadd ret (map fst triangle_list))"

text \<open>
  \<open>numpy.random.choice(a, size = n, p = p)\<close> for an integer \<open>a\<close>: a ValueError
  unless \<open>a\<close> is positive, \<open>p\<close> has \<open>a\<close> entries that are probabilities (none negative
  or non-finite, summing to 1) and \<open>n\<close> is not negative.
\<close>

definition probabilities :: "npfloat list \<Rightarrow> bool" where
  "probabilities p =
     (list_all (\<lambda>x. case x of Finite r \<Rightarrow> 0 \<le> r | NonFinite \<Rightarrow> False) p \<and> fl_sum p = Finite 1)"

definition random_choice :: "nat \<Rightarrow> int \<Rightarrow> npfloat list \<Rightarrow> (nat \<Rightarrow> nat) \<Rightarrow> error + nat list" where
  "random_choice a n p draw =
     (if a = 0 \<or> length p \<noteq> a \<or> \<not> probabilities p \<or> n < 0 then Inl ValueError
      else Inr (map draw [0..<nat n]))"

text \<open>\<open>xs[ids]\<close> for a list of indices: an IndexError when one is out of range.\<close>

definition take_rows :: "'a list \<Rightarrow> nat list \<Rightarrow> error + 'a list" where
  "take_rows xs ids =
     (if list_all (\<lambda>i. i < length xs) ids then Inr (map (nth xs) ids) else Inl IndexError)"

definition uniform_sample_mesh ::
  "triangle list \<Rightarrow> npfloat list \<Rightarrow> int \<Rightarrow> (nat \<Rightarrow> nat) \<Rightarrow> (nat \<Rightarrow> real \<times> real) \<Rightarrow> error + vec3 list"
where
  "uniform_sample_mesh triangle_list triangle_area_list sample_count draw random =
     (let total = fl_sum triangle_area_list;
          triangle_area = map (\<lambda>a. fl_div a total) triangle_area_list
      in case random_choice (length triangle_list) sample_count triangle_area draw of
           Inl e \<Rightarrow> Inl e
         | Inr triangle_id_list \<Rightarrow>
             (case take_rows triangle_list triangle_id_list of
                Inl e \<Rightarrow> Inl e
              | Inr rows \<Rightarrow> Inr (triangle_point_picking rows random)))"

section \<open>Sample elimination: \<open>blue_noise_sample_elimination\<close>\<close>

text \<open>
  The candidate points are finite: a point is three reals. \<open>pdist\<close> is the Euclidean
  distance of every pair \<open>i < j\<close>, and \<open>squareform\<close> the symmetric matrix of them with a
  zero diagonal. The k-d tree is its data: \<open>query_ball_point x r\<close> is the indices of the
  points at distance at most \<open>r\<close> from \<open>x\<close>.

  The radius is a real number. For a positive surface area and a positive sample count it
  is the positive root that the source computes. Where numpy leaves the reals (a sample
  count of zero gives \<open>inf\<close>; a zero area over a zero count, or a negative quotient,
  gives \<open>nan\<close>) the model has the quotient \<open>x / 0 = 0\<close> and the odd square root of
  HOL instead. The statements below that depend on the value of the radius are made for a
  positive area and a positive count; those about the number of points returned need a
  radius that is not negative, which numpy's \<open>inf\<close> is as well.
\<close>

fun euclidean :: "point \<Rightarrow> point \<Rightarrow> real" where
  "euclidean (ax, ay, az) (bx, by, bz) = sqrt ((ax - bx)\<^sup>2 + (ay - by)\<^sup>2 + (az - bz)\<^sup>2)"

definition squareform_pdist :: "point list \<Rightarrow> real list list" where
  "squareform_pdist point_list =
     map (\<lambda>i. map (\<lambda>j. if i = j then 0
                        else if i < j then euclidean (point_list ! i) (point_list ! j)
                        else euclidean (point_list ! j) (point_list ! i))
                 [0..<length point_list])
         [0..<length point_list]"

definition query_ball_point :: "point list \<Rightarrow> point \<Rightarrow> real \<Rightarrow> nat list" where
  "query_ball_point kdtree x r = filter (\<lambda>j. euclidean (kdtree ! j) x \<le> r) [0..<length kdtree]"

definition radius :: "real \<Rightarrow> int \<Rightarrow> real" where
  "radius mesh_surface_area sample_count =
     sqrt (mesh_surface_area / ((2 * of_int sample_count) * sqrt 3))"

text \<open>Lines 62 and 63: the matrix of pairwise weights.\<close>

definition weight_matrix :: "point list \<Rightarrow> real \<Rightarrow> nat \<Rightarrow> real list list" where
  "weight_matrix point_list rmax alpha =
     (let D = map (map (\<lambda>d. min d (2 * rmax))) (squareform_pdist point_list)
      in map (map (\<lambda>d. (1 - d / (2 * rmax)) ^ alpha)) D)"

text \<open>Lines 65 to 67: the weight of every sample.\<close>

definition initial_weights :: "point list \<Rightarrow> real list list \<Rightarrow> real \<Rightarrow> real list" where
  "initial_weights point_list D rmax =
     map (\<lambda>i. sum_list [D ! i ! j. j \<leftarrow> query_ball_point point_list (point_list ! i) (2 * rmax), i \<noteq> j])
         [0..<length point_list]"

text \<open>\<open>list.pop()\<close> and \<open>set.remove(x)\<close>, with their exceptions.\<close>

definition pop :: "'a list \<Rightarrow> error + ('a \<times> 'a list)" where
  "pop xs = (if xs = [] then Inl IndexError else Inr (last xs, butlast xs))"

definition set_remove :: "'a set \<Rightarrow> 'a \<Rightarrow> error + 'a set" where
  "set_remove s x = (if x \<in> s then Inr (s - {x}) else Inl KeyError)"

text \<open>
  The loop's state is the sorted list \<open>heap\<close> of pairs (weight, index) and the set
  \<open>id_set\<close>. One run of the loop body, lines 75 to 81:
\<close>

type_synonym loop_state = "(real \<times> nat) list \<times> nat set"

definition elimination_step ::
  "point list \<Rightarrow> real list list \<Rightarrow> real \<Rightarrow> loop_state \<Rightarrow> error + loop_state"
where
  "elimination_step point_list D rmax st =
     (case pop (fst st) of
        Inl e \<Rightarrow> Inl e
      | Inr ((w, i), heap) \<Rightarrow>
          (case set_remove (snd st) i of
             Inl e \<Rightarrow> Inl e
           | Inr id_set \<Rightarrow>
               if length point_list \<le> i then Inl IndexError
               else
                 (case set_remove (set (query_ball_point point_list (point_list ! i) (2 * rmax))) i of
                    Inl e \<Rightarrow> Inl e
                  | Inr neighbor_set \<Rightarrow>
                      Inr (sort (map (\<lambda>(w, j). if j \<in> neighbor_set then (w - D ! i ! j, j) else (w, j)) heap),
                           id_set))))"

function elimination_loop ::
  "point list \<Rightarrow> real list list \<Rightarrow> real \<Rightarrow> int \<Rightarrow> loop_state \<Rightarrow> error + nat set"
where
  "elimination_loop point_list D rmax sample_count (heap, id_set) =
     (if int (card id_set) > sample_count then
        (case elimination_step point_list D rmax (heap, id_set) of
           Inl e \<Rightarrow> Inl e
         | Inr st \<Rightarrow> elimination_loop point_list D rmax sample_count st)
      else Inr id_set)"
  by pat_completeness auto
termination
proof (relation "measure (\<lambda>(point_list, D, rmax, sample_count, heap, id_set). length heap)")
  show "wf (measure (\<lambda>(point_list, D, rmax, sample_count, heap, id_set). length heap))"
    by simp
next
  fix point_list :: "point list" and D rmax and sample_count :: int
    and heap id_set and st :: loop_state
  assume "elimination_step point_list D rmax (heap, id_set) = Inr st"
  then have "length (fst st) < length heap"
    by (auto simp: elimination_step_def pop_def set_remove_def
             split: if_splits sum.splits prod.splits)
  then show "((point_list, D, rmax, sample_count, st), point_list, D, rmax, sample_count, heap, id_set)
      \<in> measure (\<lambda>(point_list, D, rmax, sample_count, heap, id_set). length heap)"
    by (cases st) simp
qed

text \<open>The state before the first run of the loop, lines 55 to 72.\<close>

definition initial_state :: "point list \<Rightarrow> real \<Rightarrow> nat \<Rightarrow> loop_state" where
  "initial_state point_list rmax alpha =
     (let D = weight_matrix point_list rmax alpha;
          W = initial_weights point_list D rmax;
          heap = sort (map (\<lambda>(i, w). (w, i)) (enumerate 0 W));
          id_set = set [0..<length point_list]
      in (heap, id_set))"

definition blue_noise_sample_elimination :: "point list \<Rightarrow> real \<Rightarrow> int \<Rightarrow> error + point list" where
  "blue_noise_sample_elimination point_list mesh_surface_area sample_count =
     (let alpha = 8;
          rmax = radius mesh_surface_area sample_count;
          D = weight_matrix point_list rmax alpha
      in case elimination_loop point_list D rmax sample_count (initial_state point_list rmax alpha) of
           Inl e \<Rightarrow> Inl e
         | Inr id_set \<Rightarrow> Inr (map (nth point_list) (sorted_list_of_set id_set)))"

text \<open>
  The states the loop of \<open>blue_noise_sample_elimination\<close> passes through, each at the
  loop's head.
\<close>

inductive loop_states :: "point list \<Rightarrow> real \<Rightarrow> int \<Rightarrow> loop_state \<Rightarrow> bool"
  for point_list :: "point list" and mesh_surface_area :: real and sample_count :: int
where
  first: "loop_states point_list mesh_surface_area sample_count
            (initial_state point_list (radius mesh_surface_area sample_count) 8)"
| later: "loop_states point_list mesh_surface_area sample_count st \<Longrightarrow>
          int (card (snd st)) > sample_count \<Longrightarrow>
          elimination_step point_list
            (weight_matrix point_list (radius mesh_surface_area sample_count) 8)
            (radius mesh_surface_area sample_count) st = Inr st' \<Longrightarrow>
          loop_states point_list mesh_surface_area sample_count st'"

text \<open>
  The invariant of the loop: the indices of the heap's entries are distinct, they are the
  members of \<open>id_set\<close>, and they are indices of \<open>point_list\<close>. \<open>decrement\<close> is what
  line 80 does to one entry of the heap when the sample \<open>i\<close> is removed.
\<close>

definition heap_inv :: "point list \<Rightarrow> loop_state \<Rightarrow> bool" where
  "heap_inv point_list st =
     (distinct (map snd (fst st)) \<and> set (map snd (fst st)) = snd st \<and>
      snd st \<subseteq> {..<length point_list})"

definition decrement ::
  "point list \<Rightarrow> real list list \<Rightarrow> real \<Rightarrow> nat \<Rightarrow> real \<times> nat \<Rightarrow> real \<times> nat" where
  "decrement point_list D rmax i =
     (\<lambda>(w, j). if j \<in> set (query_ball_point point_list (point_list ! i) (2 * rmax)) - {i}
                then (w - D ! i ! j, j) else (w, j))"

text \<open>
  The weight of the pair \<open>(i, j)\<close> in the words of the specification:
  \<open>(1 - min (d(i, j), 2 rmax) / (2 rmax)) ^ 8\<close>.
\<close>

definition pair_weight :: "point list \<Rightarrow> real \<Rightarrow> nat \<Rightarrow> nat \<Rightarrow> real" where
  "pair_weight point_list rmax i j =
     (1 - min (euclidean (point_list ! i) (point_list ! j)) (2 * rmax) / (2 * rmax)) ^ 8"

section \<open>Properties of \<open>mesh_area\<close>\<close>





lemma length_mesh_area: "length (mesh_area ts) = length ts"
  by (simp add: mesh_area_def)

lemma mesh_area_nth: "i < length ts \<Longrightarrow> mesh_area ts ! i = hd (mesh_area [ts ! i])"
  by (simp add: mesh_area_def)





lemma is_finite_sub [simp]: "is_finite (fl_sub a b) \<longleftrightarrow> is_finite a \<and> is_finite b"
  by (cases a; cases b) simp_all

lemma is_finite_add [simp]: "is_finite (fl_add a b) \<longleftrightarrow> is_finite a \<and> is_finite b"
  by (cases a; cases b) simp_all

lemma is_finite_mul [simp]: "is_finite (fl_mul a b) \<longleftrightarrow> is_finite a \<and> is_finite b"
  by (cases a; cases b) simp_all

lemma is_finite_sqrt: "is_finite (fl_sqrt a) \<Longrightarrow> is_finite a"
  by (cases a) simp_all

lemma finite_area_finite_triangle:
  "is_finite (hd (mesh_area [t])) \<Longrightarrow> finite_triangle t"
proof -
  obtain v0 v1 v2 where t: "t = (v0, v1, v2)" by (cases t) auto
  obtain a1 a2 a3 where v0: "v0 = (a1, a2, a3)" by (cases v0) auto
  obtain b1 b2 b3 where v1: "v1 = (b1, b2, b3)" by (cases v1) auto
  obtain c1 c2 c3 where v2: "v2 = (c1, c2, c3)" by (cases v2) auto
  assume "is_finite (hd (mesh_area [t]))"
  then have "is_finite (row_norm (cross (vsub v1 v0) (vsub v2 v0)))"
    by (simp add: t mesh_area_def)
  then show ?thesis
    unfolding t v0 v1 v2 by (auto dest!: is_finite_sqrt)
qed

text \<open>
  C9, as the code has it. \<open>mesh_area\<close> has no check of its input and no failure: it
  returns one area per triangle whatever the coordinates are, and the area of a triangle
  with a non-finite vertex coordinate is non-finite. The non-finite value is handed on
  to the caller.
\<close>

theorem mesh_area_non_finite:
  "length (mesh_area ts) = length ts \<and>
   (\<forall>i<length ts. \<not> finite_triangle (ts ! i) \<longrightarrow> mesh_area ts ! i = NonFinite)"
proof (intro conjI allI impI)
  show "length (mesh_area ts) = length ts"
    by (rule length_mesh_area)
next
  fix i assume i: "i < length ts" and nf: "\<not> finite_triangle (ts ! i)"
  show "mesh_area ts ! i = NonFinite"
  proof (cases "mesh_area ts ! i")
    case (Finite x)
    then have "is_finite (hd (mesh_area [ts ! i]))"
      using mesh_area_nth [OF i] by simp
    then show ?thesis
      using finite_area_finite_triangle nf by blast
  qed simp
qed

theorem mesh_area_non_finite_witness:
  "\<not> finite_triangle ((Finite 0, Finite 0, Finite 0), (Finite 1, NonFinite, Finite 0), (Finite 0, Finite 1, Finite 0)) \<and>
   mesh_area [((Finite 0, Finite 0, Finite 0), (Finite 1, NonFinite, Finite 0), (Finite 0, Finite 1, Finite 0)),
              fin_triangle ((0, 0, 0), (2, 0, 0), (0, 2, 0))] ! 0 = NonFinite"
  using mesh_area_non_finite
    [of "[((Finite 0, Finite 0, Finite 0), (Finite 1, NonFinite, Finite 0), (Finite 0, Finite 1, Finite 0)),
          fin_triangle ((0, 0, 0), (2, 0, 0), (0, 2, 0))]"]
  by simp

text \<open>
  The claim C9 as the specification states it fails: on a triangle whose first coordinate
  is non-finite, \<open>mesh_area\<close> returns an area vector, which holds a non-finite value.
\<close>

theorem mesh_area_returns_non_finite:
  "mesh_area [((NonFinite, Finite 0, Finite 0), (Finite 1, Finite 0, Finite 0), (Finite 0, Finite 1, Finite 0))]
     = [NonFinite]"
  by (simp add: mesh_area_def)

section \<open>Properties of the uniform sampler\<close>









lemma fl_div_zero: "fl_div a (Finite 0) = NonFinite"
  by (cases a) simp_all

text \<open>
  C8, as the code has it. When the areas sum to zero, \<open>uniform_sample_mesh\<close> fails and
  returns no points. The failure is the ValueError of \<open>numpy.random.choice\<close>: the areas
  divided by the zero total are not finite, so they are not probabilities (for an empty
  area list there is nothing to choose from, or the lengths differ). The source has no
  test of the total area and no error of its own.
\<close>

theorem uniform_sample_mesh_zero_area:
  assumes "fl_sum triangle_area_list = Finite 0"
  shows "uniform_sample_mesh triangle_list triangle_area_list sample_count draw random
           = Inl ValueError"
proof (cases triangle_area_list)
  case Nil
  then show ?thesis
    by (simp add: uniform_sample_mesh_def random_choice_def)
next
  case (Cons a as)
  then have "\<not> probabilities (map (\<lambda>a. fl_div a (Finite 0)) triangle_area_list)"
    by (simp add: probabilities_def fl_div_zero)
  then show ?thesis
    using assms by (simp add: uniform_sample_mesh_def random_choice_def)
qed

theorem uniform_sample_mesh_zero_area_witness:
  "fl_sum [Finite 0, Finite 0] = Finite 0 \<and>
   uniform_sample_mesh
     [fin_triangle ((0, 0, 0), (1, 1, 1), (2, 2, 2)), fin_triangle ((0, 0, 0), (0, 0, 0), (1, 0, 0))]
     [Finite 0, Finite 0] 8 (\<lambda>k. 0) (\<lambda>i. (1 / 4, 1 / 2)) = Inl ValueError"
proof -
  have z: "fl_sum [Finite 0, Finite 0] = Finite 0"
    by (simp add: fl_sum_def)
  show ?thesis
    using z uniform_sample_mesh_zero_area [OF z] by simp
qed

text \<open>
  The claim C8 as the specification states it fails: for the mesh of one triangle with
  collinear vertices, whose area \<open>mesh_area\<close> computes as 0, the error is numpy's
  ValueError.
\<close>

theorem uniform_sample_mesh_degenerate_value_error:
  "uniform_sample_mesh [fin_triangle ((0, 0, 0), (1, 1, 1), (2, 2, 2))]
     (mesh_area [fin_triangle ((0, 0, 0), (1, 1, 1), (2, 2, 2))]) 4 (\<lambda>k. 0) (\<lambda>i. (1 / 4, 1 / 2))
   = Inl ValueError"
  by (simp add: uniform_sample_mesh_def random_choice_def probabilities_def mesh_area_def
        fl_sum_def)

section \<open>Properties of the elimination loop\<close>

lemma euclidean_self: "euclidean p p = 0"
  by (cases p) simp

lemma euclidean_sym: "euclidean p q = euclidean q p"
  by (cases p; cases q) (simp add: power2_commute)

lemma set_query_ball_point:
  "set (query_ball_point pts x r) = {j. j < length pts \<and> euclidean (pts ! j) x \<le> r}"
  by (auto simp: query_ball_point_def)

lemma snd_decrement: "snd (decrement pts D rmax i x) = snd x"
  by (cases x) (simp add: decrement_def)

lemma map_snd_decrement: "map snd (map (decrement pts D rmax i) xs) = map snd xs"
  by (simp add: snd_decrement)

lemma mset_map_snd_sort: "mset (map snd (sort xs)) = mset (map snd xs)"
  by (metis mset_map mset_sort)

lemma elimination_step_result:
  assumes inv: "heap_inv pts (heap, ids)" and ne: "heap \<noteq> []" and r: "0 \<le> rmax"
  shows "elimination_step pts D rmax (heap, ids) =
           Inr (sort (map (decrement pts D rmax (snd (last heap))) (butlast heap)),
                ids - {snd (last heap)})"
proof -
  obtain w i where l: "last heap = (w, i)" by (cases "last heap") auto
  have "(w, i) \<in> set heap" using ne l last_in_set by metis
  then have i: "i \<in> ids" using inv by (force simp: heap_inv_def)
  then have n: "i < length pts" using inv by (auto simp: heap_inv_def)
  have q: "i \<in> set (query_ball_point pts (pts ! i) (2 * rmax))"
    using n r by (simp add: set_query_ball_point euclidean_self)
  show ?thesis
    using ne l i n q
    by (simp add: elimination_step_def pop_def set_remove_def decrement_def)
qed

lemma elimination_step_inv:
  assumes inv: "heap_inv pts (heap, ids)" and ne: "heap \<noteq> []"
  shows "heap_inv pts (sort (map (decrement pts D rmax (snd (last heap))) (butlast heap)),
                ids - {snd (last heap)})"
proof -
  let ?h = "sort (map (decrement pts D rmax (snd (last heap))) (butlast heap))"
  have m: "mset (map snd ?h) = mset (map snd (butlast heap))"
    by (simp only: mset_map_snd_sort map_snd_decrement)
  have h: "map snd heap = map snd (butlast heap) @ [snd (last heap)]"
    using ne by (metis append_butlast_last_id map_append list.simps(8,9))
  have d: "distinct (map snd (butlast heap))" and ni: "snd (last heap) \<notin> set (map snd (butlast heap))"
    using inv h by (auto simp: heap_inv_def)
  have s: "set (map snd (butlast heap)) = ids - {snd (last heap)}"
    using inv h ni unfolding heap_inv_def fst_conv snd_conv
    by (metis Diff_insert_absorb Un_insert_right append_Nil2 list.simps(15) set_append)
  have "distinct (map snd ?h)"
    using m d by (metis mset_eq_imp_distinct_iff)
  moreover have "set (map snd ?h) = ids - {snd (last heap)}"
    using m s by (metis set_mset_mset)
  moreover have "ids - {snd (last heap)} \<subseteq> {..<length pts}"
    using inv by (auto simp: heap_inv_def)
  ultimately show ?thesis
    by (simp add: heap_inv_def)
qed

lemma heap_inv_card: "heap_inv pts (heap, ids) \<Longrightarrow> card ids = length heap"
  unfolding heap_inv_def fst_conv snd_conv
  by (metis distinct_card length_map)

lemma elimination_loop_result:
  assumes "heap_inv pts st" and "0 \<le> rmax" and "0 \<le> sc"
  shows "\<exists>ids'. elimination_loop pts D rmax sc st = Inr ids' \<and> ids' \<subseteq> snd st \<and>
           (sc \<le> int (card (snd st)) \<longrightarrow> int (card ids') = sc) \<and>
           (int (card (snd st)) \<le> sc \<longrightarrow> ids' = snd st)"
  using assms
proof (induction pts D rmax sc st rule: elimination_loop.induct)
  case (1 pts D rmax sc heap ids)
  show ?case
  proof (cases "int (card ids) > sc")
    case False
    then show ?thesis by simp
  next
    case True
    then have ne: "heap \<noteq> []"
      using heap_inv_card [OF "1.prems"(1)] "1.prems"(3) by auto
    let ?st = "(sort (map (decrement pts D rmax (snd (last heap))) (butlast heap)),
                ids - {snd (last heap)})"
    have step: "elimination_step pts D rmax (heap, ids) = Inr ?st"
      by (rule elimination_step_result [OF "1.prems"(1) ne "1.prems"(2)])
    have inv': "heap_inv pts ?st"
      by (rule elimination_step_inv [OF "1.prems"(1) ne])
    have c: "card (snd ?st) = card ids - 1"
      using heap_inv_card [OF inv'] heap_inv_card [OF "1.prems"(1)] by simp
    from "1.IH" [OF True step inv' "1.prems"(2) "1.prems"(3)]
    obtain ids' where r: "elimination_loop pts D rmax sc ?st = Inr ids'"
      "ids' \<subseteq> snd ?st" "sc \<le> int (card (snd ?st)) \<longrightarrow> int (card ids') = sc"
      by blast
    have "elimination_loop pts D rmax sc (heap, ids) = Inr ids'"
      using True step r(1) by simp
    moreover have "ids' \<subseteq> ids" using r(2) by auto
    moreover have "int (card ids') = sc" using r(3) c True by auto
    ultimately show ?thesis using True by auto
  qed
qed


lemma length_initial_weights: "length (initial_weights pts D rmax) = length pts"
  by (simp add: initial_weights_def)

lemma map_snd_swap_enumerate:
  "map snd (map (\<lambda>(i, w). (w, i)) (enumerate 0 W)) = [0..<length W]"
proof -
  have "map snd (map (\<lambda>(i, w). (w, i)) (enumerate 0 W)) = map fst (enumerate 0 W)"
    by (simp add: case_prod_unfold comp_def)
  then show ?thesis by (simp only: map_fst_enumerate) simp
qed

lemma initial_state_inv: "heap_inv pts (initial_state pts rmax alpha)"
proof -
  let ?W = "initial_weights pts (weight_matrix pts rmax alpha) rmax"
  let ?h = "sort (map (\<lambda>(i, w). (w, i)) (enumerate 0 ?W))"
  have m: "mset (map snd ?h) = mset [0..<length pts]"
    by (simp only: mset_map_snd_sort map_snd_swap_enumerate length_initial_weights)
  have "distinct (map snd ?h)"
    using m by (metis mset_eq_imp_distinct_iff distinct_upt)
  moreover have "set (map snd ?h) = set [0..<length pts]"
    using m by (metis set_mset_mset)
  ultimately show ?thesis
    by (auto simp: heap_inv_def initial_state_def Let_def)
qed

lemma snd_initial_state: "snd (initial_state pts rmax alpha) = {0..<length pts}"
  by (simp add: initial_state_def Let_def)

lemma radius_nonneg: "0 \<le> a \<Longrightarrow> 0 \<le> sc \<Longrightarrow> 0 \<le> radius a sc"
  by (simp add: radius_def)


lemma elimination_loop_initial:
  assumes "0 \<le> rmax" and "0 \<le> sc"
  shows "\<exists>ids'. elimination_loop pts D rmax sc (initial_state pts rmax alpha) = Inr ids' \<and>
           ids' \<subseteq> {0..<length pts} \<and>
           (sc \<le> int (length pts) \<longrightarrow> int (card ids') = sc)"
proof -
  have "heap_inv pts (initial_state pts rmax alpha)"
    by (rule initial_state_inv)
  from elimination_loop_result [OF this assms, where D = D] show ?thesis
    by (auto simp: snd_initial_state)
qed


lemma exact_count_result:
  assumes "0 < a" and "0 \<le> sc" and "sc \<le> int (length pts)"
  shows "\<exists>ids. blue_noise_sample_elimination pts a sc = Inr (map (nth pts) ids) \<and>
           sorted_wrt (<) ids \<and> set ids \<subseteq> {..<length pts} \<and> int (length ids) = sc"
proof -
  have r: "0 \<le> radius a sc"
    using assms by (simp add: radius_nonneg)
  from elimination_loop_initial [OF r assms(2), where pts = pts and alpha = 8
      and D = "weight_matrix pts (radius a sc) 8"]
  obtain ids' where l: "elimination_loop pts (weight_matrix pts (radius a sc) 8) (radius a sc) sc
        (initial_state pts (radius a sc) 8) = Inr ids'"
    and s: "ids' \<subseteq> {0..<length pts}" and c: "int (card ids') = sc"
    using assms(3) by blast
  have f: "finite ids'"
    using s finite_subset by blast
  let ?ids = "sorted_list_of_set ids'"
  have "blue_noise_sample_elimination pts a sc = Inr (map (nth pts) ?ids)"
    by (simp add: blue_noise_sample_elimination_def l)
  moreover have "sorted_wrt (<) ?ids"
    by (rule strict_sorted_list_of_set)
  moreover have "set ?ids \<subseteq> {..<length pts}"
    using s f by auto
  moreover have "int (length ?ids) = sc"
    using c by simp
  ultimately show ?thesis by blast
qed

text \<open>
  C1. For a candidate list of at least \<open>sample_count\<close> points (a count, so not negative;
  the surface area positive), \<open>blue_noise_sample_elimination\<close> returns the points at
  exactly \<open>sample_count\<close> indices of the candidate list, the indices strictly
  increasing: a subset of the candidates in their original order.
\<close>

theorem elimination_returns_target_count:
  assumes "0 < mesh_surface_area" and "0 \<le> sample_count"
    and "sample_count \<le> int (length point_list)"
  shows "\<exists>ids. blue_noise_sample_elimination point_list mesh_surface_area sample_count
                  = Inr (map (nth point_list) ids) \<and>
               sorted_wrt (<) ids \<and> set ids \<subseteq> {..<length point_list} \<and>
               int (length ids) = sample_count"
  using assms by (rule exact_count_result)

theorem elimination_returns_target_count_witness:
  "(0::real) < 1 \<and> (0::int) \<le> 2 \<and> (2::int) \<le> int (length [(0, 0, 0), (1, 0, 0), (4, 0, 0) :: point]) \<and>
   (\<exists>ids. blue_noise_sample_elimination [(0, 0, 0), (1, 0, 0), (4, 0, 0)] 1 2
             = Inr (map (nth [(0, 0, 0), (1, 0, 0), (4, 0, 0)]) ids) \<and>
          sorted_wrt (<) ids \<and> set ids \<subseteq> {..<length [(0, 0, 0), (1, 0, 0), (4, 0, 0) :: point]} \<and>
          int (length ids) = 2)"
proof -
  have h: "(0::real) < 1" "(0::int) \<le> 2"
      "(2::int) \<le> int (length [(0, 0, 0), (1, 0, 0), (4, 0, 0) :: point])"
    by simp_all
  from elimination_returns_target_count [OF h] h show ?thesis
    by blast
qed






section \<open>The weights and one run of the loop body\<close>

lemma weight_matrix_nth:
  assumes "i < length pts" "j < length pts"
  shows "weight_matrix pts rmax 8 ! i ! j = pair_weight pts rmax i j"
  using assms
  by (simp add: weight_matrix_def squareform_pdist_def pair_weight_def euclidean_self
        euclidean_sym [of "pts ! j" "pts ! i"])

lemma pair_weight_nonneg: "0 \<le> pair_weight pts rmax i j"
  by (simp add: pair_weight_def)


lemma elimination_step_Inr:
  assumes "elimination_step pts D rmax (heap, ids) = Inr st'"
  shows "heap \<noteq> [] \<and> snd (last heap) \<in> ids \<and>
         st' = (sort (map (decrement pts D rmax (snd (last heap))) (butlast heap)),
                ids - {snd (last heap)})"
proof -
  obtain w i where l: "last heap = (w, i)" by (cases "last heap") auto
  show ?thesis
    using assms
    by (simp add: elimination_step_def pop_def set_remove_def decrement_def l
           split: if_splits)
qed

lemma loop_states_inv:
  "loop_states pts a sc st \<Longrightarrow> heap_inv pts st \<and> sorted (fst st)"
proof (induction rule: loop_states.induct)
  case first
  then show ?case
    by (simp add: initial_state_inv) (simp add: initial_state_def Let_def)
next
  case (later st st')
  obtain heap ids where st: "st = (heap, ids)" by (cases st) auto
  from later(3) [unfolded st] have r: "heap \<noteq> []"
    "st' = (sort (map (decrement pts (weight_matrix pts (radius a sc) 8) (radius a sc)
                (snd (last heap))) (butlast heap)), ids - {snd (last heap)})"
    using elimination_step_Inr by blast+
  show ?case
    using later.IH elimination_step_inv [of pts heap ids] r
    by (simp add: st)
qed








text \<open>
  An example run: three candidates on a line, at 0, 1 and 4, the surface area chosen so
  that the radius is 1 and the interaction radius 2, and a target of two samples. The
  candidates at 0 and 1 have the weight \<open>(1 - 1 / 2) ^ 8 = 1 / 256\<close>, the one at 4 has
  weight 0; the tie is broken for the highest index, so the candidate at 1 is removed and
  the weight of the candidate at 0 drops to 0.
\<close>

lemma radius_example: "radius (4 * sqrt 3) 2 = 1"
  by (simp add: radius_def)

lemma euclidean_axis: "euclidean (a, 0, 0) (b, 0, 0) = \<bar>a - b\<bar>"
  by simp

lemma upt_3: "[0..<3] = [0, 1, 2]"
  by (simp add: upt_rec numeral_3_eq_3)

lemma weight_matrix_example:
  "weight_matrix [(0, 0, 0), (1, 0, 0), (4, 0, 0)] 1 8 =
     [[1, 1 / 256, 0], [1 / 256, 1, 0], [0, 0, 1]]"
  by (simp add: weight_matrix_def squareform_pdist_def upt_3 power_divide
       del: euclidean.simps add: euclidean_axis)

lemma initial_weights_example:
  "initial_weights [(0, 0, 0), (1, 0, 0), (4, 0, 0)]
      [[1, 1 / 256, 0], [1 / 256, 1, 0], [0, 0, 1]] 1 = [1 / 256, 1 / 256, 0]"
  by (simp add: initial_weights_def query_ball_point_def upt_3
       del: euclidean.simps add: euclidean_axis)

lemma initial_state_example:
  "initial_state [(0, 0, 0), (1, 0, 0), (4, 0, 0)] 1 8 =
     ([(0, 2), (1 / 256, 0), (1 / 256, 1)], {0, 1, 2})"
  by (simp add: initial_state_def weight_matrix_example initial_weights_example
        enumerate_eq_zip upt_3 numeral_2_eq_2)

lemma elimination_step_example:
  "elimination_step [(0, 0, 0), (1, 0, 0), (4, 0, 0)]
     [[1, 1 / 256, 0], [1 / 256, 1, 0], [0, 0, 1]] 1
     ([(0, 2), (1 / 256, 0), (1 / 256, 1)], {0, 1, 2}) = Inr ([(0, 0), (0, 2)], {0, 2})"
  by (simp add: elimination_step_def pop_def set_remove_def query_ball_point_def upt_3
       del: euclidean.simps add: euclidean_axis) auto

lemma elimination_loop_example:
  "elimination_loop [(0, 0, 0), (1, 0, 0), (4, 0, 0)]
     [[1, 1 / 256, 0], [1 / 256, 1, 0], [0, 0, 1]] 1 2
     ([(0, 2), (1 / 256, 0), (1 / 256, 1)], {0, 1, 2}) = Inr {0, 2}"
proof -
  have c: "int (card {0 :: nat, 1, 2}) > 2"
    by simp
  have e: "elimination_loop [(0, 0, 0), (1, 0, 0), (4, 0, 0)]
     [[1, 1 / 256, 0], [1 / 256, 1, 0], [0, 0, 1]] 1 2 ([(0, 0), (0, 2)], {0, 2}) = Inr {0, 2}"
    by simp
  show ?thesis
    by (subst elimination_loop.simps) (simp only: c if_True elimination_step_example sum.case e)
qed

lemma elimination_example:
  "blue_noise_sample_elimination [(0, 0, 0), (1, 0, 0), (4, 0, 0)] (4 * sqrt 3) 2
     = Inr [(0, 0, 0), (4, 0, 0)]"
proof -
  have s: "sorted_list_of_set {0 :: nat, 2} = [0, 2]"
    by simp
  show ?thesis
    unfolding blue_noise_sample_elimination_def Let_def radius_example initial_state_example
      weight_matrix_example elimination_loop_example sum.case s
    by simp
qed



text \<open>
  C5. At every state of the loop, after a run of the body every entry \<open>(w', j)\<close> of the
  new heap belongs to a member \<open>j\<close> of the new \<open>id_set\<close>, and the weight \<open>w\<close> that \<open>j\<close>
  had in the heap before is at least \<open>w'\<close>: no weight of a surviving sample goes up.
\<close>

theorem elimination_step_monotone:
  assumes "loop_states point_list mesh_surface_area sample_count (heap, id_set)"
    and "elimination_step point_list
           (weight_matrix point_list (radius mesh_surface_area sample_count) 8)
           (radius mesh_surface_area sample_count) (heap, id_set) = Inr (heap', id_set')"
  shows "\<forall>(w', j)\<in>set heap'. j \<in> id_set' \<and> (\<exists>w. (w, j) \<in> set heap \<and> w' \<le> w)"
proof clarify
  let ?r = "radius mesh_surface_area sample_count"
  let ?D = "weight_matrix point_list ?r 8"
  fix w' j assume m: "(w', j) \<in> set heap'"
  have inv: "heap_inv point_list (heap, id_set)"
    using loop_states_inv [OF assms(1)] by simp
  from elimination_step_Inr [OF assms(2)]
  have ne: "heap \<noteq> []" and i: "snd (last heap) \<in> id_set"
    and h': "heap' = sort (map (decrement point_list ?D ?r (snd (last heap))) (butlast heap))"
    and ids': "id_set' = id_set - {snd (last heap)}"
    by simp_all
  have inv': "heap_inv point_list (heap', id_set')"
    using elimination_step_inv [OF inv ne] h' ids' by simp
  have n: "snd (last heap) < length point_list"
    using inv i by (auto simp: heap_inv_def)
  from m h' obtain w j0 where b: "(w, j0) \<in> set (butlast heap)"
    and d: "decrement point_list ?D ?r (snd (last heap)) (w, j0) = (w', j)"
    by auto
  have mh: "(w, j0) \<in> set heap"
    using b by (rule in_set_butlastD)
  then have j0: "j0 < length point_list"
    using inv by (force simp: heap_inv_def)
  have "0 \<le> ?D ! snd (last heap) ! j0"
    using n j0 by (simp add: weight_matrix_nth pair_weight_nonneg)
  then have "j = j0 \<and> w' \<le> w"
    using d by (auto simp: decrement_def split: if_splits)
  moreover have "j \<in> id_set'"
    using inv' m by (force simp: heap_inv_def)
  ultimately show "j \<in> id_set' \<and> (\<exists>w. (w, j) \<in> set heap \<and> w' \<le> w)"
    using mh by blast
qed

theorem elimination_step_monotone_witness:
  "loop_states [(0, 0, 0), (1, 0, 0), (4, 0, 0)] (4 * sqrt 3) 2 ([(0, 2), (1 / 256, 0), (1 / 256, 1)], {0, 1, 2}) \<and>
   elimination_step [(0, 0, 0), (1, 0, 0), (4, 0, 0)] (weight_matrix [(0, 0, 0), (1, 0, 0), (4, 0, 0)] (radius (4 * sqrt 3) 2) 8) (radius (4 * sqrt 3) 2) ([(0, 2), (1 / 256, 0), (1 / 256, 1)], {0, 1, 2}) = Inr ([(0, 0), (0, 2)], {0, 2}) \<and>
   list_all (\<lambda>(w', j). j \<in> {0, 2 :: nat} \<and> (\<exists>w. (w, j) \<in> set ([(0, 2), (1 / 256, 0), (1 / 256, 1)] :: (real \<times> nat) list) \<and> w' \<le> w))
     [(0 :: real, 0 :: nat), (0, 2)]"
proof -
  have h1: "loop_states [(0, 0, 0), (1, 0, 0), (4, 0, 0)] (4 * sqrt 3) 2 ([(0, 2), (1 / 256, 0), (1 / 256, 1)], {0, 1, 2})"
    using loop_states.first [of "[(0, 0, 0), (1, 0, 0), (4, 0, 0)]" "4 * sqrt 3" 2]
    by (simp only: radius_example initial_state_example)
  have e: "elimination_step [(0, 0, 0), (1, 0, 0), (4, 0, 0)] (weight_matrix [(0, 0, 0), (1, 0, 0), (4, 0, 0)] (radius (4 * sqrt 3) 2) 8) (radius (4 * sqrt 3) 2) ([(0, 2), (1 / 256, 0), (1 / 256, 1)], {0, 1, 2}) = Inr ([(0, 0), (0, 2)], {0, 2})"
    by (simp only: radius_example weight_matrix_example elimination_step_example)
  have l: "list_all (\<lambda>(w', j). j \<in> {0, 2 :: nat} \<and> (\<exists>w. (w, j) \<in> set ([(0, 2), (1 / 256, 0), (1 / 256, 1)] :: (real \<times> nat) list) \<and> w' \<le> w))
     [(0 :: real, 0 :: nat), (0, 2)]"
    unfolding list_all_iff by (rule elimination_step_monotone [OF h1 e])
  show ?thesis
    by (rule conjI [OF h1 conjI [OF e l]])
qed



end
